theory Spec2Isabelle
  imports Main "HOL-Library.Sublist"
begin

section \<open>Strings\<close>

text \<open>
  Python strings are modelled as \<open>string\<close>. The two string operations of the standard
  library that the program uses on whole texts are \<open>str.split\<close> with a one-character
  separator and \<open>str.join\<close>.
\<close>

definition backslash :: char where
  "backslash = CHR 0x5C"

definition newline :: char where
  "newline = CHR 0x0A"

text \<open>\<open>s.split(sep)\<close> for a separator of one character: the result is never empty.\<close>

fun str_split :: "char \<Rightarrow> string \<Rightarrow> string list" where
  "str_split sep [] = [[]]"
| "str_split sep (c # cs) =
     (if c = sep then [] # str_split sep cs
      else (case str_split sep cs of
              [] \<Rightarrow> [[c]]
            | w # ws \<Rightarrow> (c # w) # ws))"

text \<open>\<open>sep.join(xs)\<close>.\<close>

fun str_join :: "string \<Rightarrow> string list \<Rightarrow> string" where
  "str_join sep [] = []"
| "str_join sep [x] = x"
| "str_join sep (x # y # ys) = x @ sep @ str_join sep (y # ys)"

section \<open>Errors\<close>

text \<open>
  Every exception the program can raise is a value. None of them is caught anywhere in
  the source, so each one ends the run.
  \<^item> \<open>ReadError\<close>: \<open>read_text\<close> raised (the file is missing, is not a file, cannot be
    opened or cannot be decoded);
  \<^item> \<open>AttributeError\<close>: \<open>mat.group(1)\<close> on a match object that is \<open>None\<close>;
  \<^item> \<open>ValueError\<close>: \<open>relative_to\<close> on a path that does not start with the other one;
  \<^item> \<open>RecursionError\<close>: the call stack is exhausted by nested calls of \<open>expand\<close>;
  \<^item> \<open>EOFError\<close>: \<open>input\<close> found the standard input closed;
  \<^item> \<open>WriteError\<close>: \<open>write_text\<close> raised, while opening the file or while writing.
\<close>

datatype error =
    ReadError
  | AttributeError
  | ValueError
  | RecursionError
  | EOFError
  | WriteError

section \<open>Paths\<close>

text \<open>
  \<open>pathlib.Path\<close> on a POSIX system, as far as the program uses it. A path object is its
  root (\<open>''''\<close>, \<open>''/''\<close> or \<open>''//''\<close>; there is no drive) and the list of its components.
  All the operations below are lexical: none of them looks at the file system, and a
  component \<open>''..''\<close> is kept as it is.
\<close>

record path =
  anchor :: string
  tail :: "string list"

text \<open>
  The root of a path string: one leading slash or three and more give \<open>''/''\<close>, exactly
  two give \<open>''//''\<close>.
\<close>

definition splitroot :: "string \<Rightarrow> string \<times> string" where
  "splitroot part =
     (if part \<noteq> [] \<and> hd part = CHR ''/'' then
        (let stripped_part = dropWhile (\<lambda>c. c = CHR ''/'') part in
         if length part - length stripped_part = 2 then (''//'', stripped_part)
         else (''/'', stripped_part))
      else ([], part))"

text \<open>\<open>Path(s)\<close>: empty components and \<open>''.''\<close> components are dropped.\<close>

definition Path :: "string \<Rightarrow> path" where
  "Path s =
     (case splitroot s of (r, rel) \<Rightarrow>
        \<lparr>anchor = r, tail = filter (\<lambda>x. x \<noteq> [] \<and> x \<noteq> ''.'') (str_split CHR ''/'' rel)\<rparr>)"

text \<open>\<open>p / s\<close>: a rooted right operand replaces the left one.\<close>

definition joinpath :: "path \<Rightarrow> string \<Rightarrow> path" where
  "joinpath p s =
     (let q = Path s in
      if anchor q \<noteq> [] then q
      else \<lparr>anchor = anchor p, tail = tail p @ tail q\<rparr>)"

text \<open>\<open>p.parent\<close>: a path without components is its own parent.\<close>

definition parent_of :: "path \<Rightarrow> path" where
  "parent_of p = \<lparr>anchor = anchor p, tail = butlast (tail p)\<rparr>"

text \<open>\<open>p.name\<close>.\<close>

definition name_of :: "path \<Rightarrow> string" where
  "name_of p = (if tail p = [] then [] else last (tail p))"

text \<open>
  \<open>p.relative_to(other)\<close>: raises \<open>ValueError\<close> unless the root and the components of
  \<open>other\<close> are a leading segment of those of \<open>p\<close>.
\<close>

definition relative_to :: "path \<Rightarrow> path \<Rightarrow> error + path" where
  "relative_to p other =
     (if anchor p = anchor other \<and> prefix (tail other) (tail p)
      then Inr \<lparr>anchor = [], tail = drop (length (tail other)) (tail p)\<rparr>
      else Inl ValueError)"

text \<open>\<open>str(p)\<close>: the path without root and components is written \<open>''.''\<close>.\<close>

definition str_of :: "path \<Rightarrow> string" where
  "str_of p =
     (let s = anchor p @ str_join ''/'' (tail p) in
      if s = [] then ''.'' else s)"

section \<open>The file system\<close>

text \<open>
  What the program observes of the file system and what it changes there.
  \<open>file_text w p\<close> is the text \<open>p.read_text("utf-8")\<close> returns, \<open>None\<close> when it raises;
  \<open>file_exists w p\<close> is \<open>p.exists()\<close>; \<open>file_write w p s\<close> tells how
  \<open>p.write_text(s)\<close> goes. \<open>write_text\<close> opens the file for writing, which creates it
  or empties it, and writes the text afterwards: when the open fails nothing has changed,
  when the write fails after the open the file is there and is empty.
\<close>

datatype write_status =
    Write_ok
  | Open_fails
  | Write_fails

record world =
  file_text :: "path \<Rightarrow> string option"
  file_exists :: "path \<Rightarrow> bool"
  file_write :: "path \<Rightarrow> string \<Rightarrow> write_status"

definition read_text :: "world \<Rightarrow> path \<Rightarrow> error + string" where
  "read_text w f = (case file_text w f of None \<Rightarrow> Inl ReadError | Some s \<Rightarrow> Inr s)"

text \<open>The file \<open>f\<close> holds the text \<open>s\<close> from now on.\<close>

definition store :: "world \<Rightarrow> path \<Rightarrow> string \<Rightarrow> world" where
  "store w f s =
     w\<lparr>file_text := (file_text w)(f := Some s), file_exists := (file_exists w)(f := True)\<rparr>"

text \<open>\<open>f.write_text(s)\<close>: the exception raised, if any, and the file system afterwards.\<close>

definition write_text :: "world \<Rightarrow> path \<Rightarrow> string \<Rightarrow> error option \<times> world" where
  "write_text w f s =
     (case file_write w f s of
        Write_ok \<Rightarrow> (None, store w f s)
      | Open_fails \<Rightarrow> (Some WriteError, w)
      | Write_fails \<Rightarrow> (Some WriteError, store w f []))"

section \<open>The extractors\<close>

text \<open>
  \<open>re.compile(r"\\NAME\{(.*)\}").match(line)\<close> followed by \<open>group(1)\<close>, for the directive
  name \<open>NAME\<close>. \<open>match\<close> anchors the pattern at the first character of the line and lets
  the line continue after the match. \<open>.\<close> matches every character but the newline, and
  \<open>.*\<close> is greedy: the group ends at the last closing brace that precedes the first
  newline. The result is \<open>None\<close> when there is no match.
\<close>

definition re_match :: "string \<Rightarrow> string \<Rightarrow> string option" where
  "re_match name line =
     (let lit = backslash # name @ ''{'' in
      if prefix lit line then
        (let seg = takeWhile (\<lambda>c. c \<noteq> newline) (drop (length lit) line) in
         if CHR ''}'' \<in> set seg
         then Some (rev (tl (dropWhile (\<lambda>c. c \<noteq> CHR ''}'') (rev seg))))
         else None)
      else None)"

datatype extractor = InputExtractor | SubfileExtractor

fun pat :: "extractor \<Rightarrow> string" where
  "pat InputExtractor = ''input''"
| "pat SubfileExtractor = ''subfile''"

definition matches :: "extractor \<Rightarrow> string \<Rightarrow> bool" where
  "matches x line = (re_match (pat x) line \<noteq> None)"

definition begin_document :: string where
  "begin_document = backslash # ''begin{document}''"

definition end_document :: string where
  "end_document = backslash # ''end{document}''"

text \<open>
  The loop of \<open>SubfileExtractor.extract\<close> over the lines of the target, with its two
  variables \<open>in_body\<close> and \<open>body_lines\<close>.
\<close>

fun scan_body :: "bool \<Rightarrow> string list \<Rightarrow> string list \<Rightarrow> string list" where
  "scan_body in_body body_lines [] = body_lines"
| "scan_body in_body body_lines (line # lines) =
     (if prefix begin_document line then scan_body True body_lines lines
      else if suffix end_document line then scan_body False body_lines lines
      else if in_body then scan_body in_body (body_lines @ [line]) lines
      else scan_body in_body body_lines lines)"

text \<open>
  \<open>extract(parent, root, line)\<close> of the two classes: the lines of the body and the path of
  the target, or the exception raised.
\<close>

fun extract_of :: "extractor \<Rightarrow> world \<Rightarrow> path \<Rightarrow> path \<Rightarrow> string \<Rightarrow> error + (string list \<times> path)" where
  "extract_of InputExtractor w parent root line =
     (case re_match (pat InputExtractor) line of
        None \<Rightarrow> Inl AttributeError
      | Some stem \<Rightarrow>
          (let target = joinpath root (stem @ ''.tex'') in
           case read_text w target of
             Inl e \<Rightarrow> Inl e
           | Inr body \<Rightarrow> Inr (str_split newline body, target)))"
| "extract_of SubfileExtractor w parent root line =
     (case re_match (pat SubfileExtractor) line of
        None \<Rightarrow> Inl AttributeError
      | Some stem \<Rightarrow>
          (let target = joinpath parent (stem @ ''.tex'') in
           case read_text w target of
             Inl e \<Rightarrow> Inl e
           | Inr text \<Rightarrow> Inr (scan_body False [] (str_split newline text), target)))"

definition extractors :: "extractor list" where
  "extractors = [InputExtractor, SubfileExtractor]"

text \<open>
  The loop of \<open>extract_ifany\<close> over the extractors: the first one that matches extracts.
  \<open>Inr None\<close> is the return value \<open>None\<close>.
\<close>

fun extract_first :: "extractor list \<Rightarrow> world \<Rightarrow> path \<Rightarrow> path \<Rightarrow> string
    \<Rightarrow> error + (string list \<times> path) option" where
  "extract_first [] w root parent line = Inr None"
| "extract_first (x # xs) w root parent line =
     (if matches x line then
        (case extract_of x w parent root line of
           Inl e \<Rightarrow> Inl e
         | Inr r \<Rightarrow> Inr (Some r))
      else extract_first xs w root parent line)"

text \<open>The global \<open>root\<close> of the module, set once by \<open>main\<close>, is a parameter here.\<close>

definition extract_ifany :: "world \<Rightarrow> path \<Rightarrow> path \<Rightarrow> string
    \<Rightarrow> error + (string list \<times> path) option" where
  "extract_ifany w root parent line = extract_first extractors w root parent line"

section \<open>The expander\<close>

definition open_marker :: "int \<Rightarrow> string \<Rightarrow> string" where
  "open_marker depth target_relation =
     (let arrow = replicate (nat (depth + 1)) CHR ''>'' in
      ''% '' @ arrow @ '' '' @ target_relation @ '' '' @ arrow @ '' : texpack'')"

definition close_marker :: "int \<Rightarrow> string \<Rightarrow> string" where
  "close_marker depth target_relation =
     (let barrow = replicate (nat (depth + 1)) CHR ''<'' in
      ''% '' @ barrow @ '' '' @ target_relation @ '' '' @ barrow @ '' : texpack'')"

text \<open>
  The loop of \<open>expand\<close> over the lines, with its variable \<open>expanded_lines\<close>. The first
  argument bounds the nesting of the calls of \<open>expand\<close>: the source has no bound of its
  own and an inclusion cycle exhausts the call stack, which is the error
  \<open>RecursionError\<close> here.
\<close>

fun expand_loop :: "nat \<Rightarrow> world \<Rightarrow> path \<Rightarrow> path \<Rightarrow> string list \<Rightarrow> string list \<Rightarrow> int
    \<Rightarrow> error + string list" where
  "expand_loop limit w root parent expanded_lines [] depth = Inr expanded_lines"
| "expand_loop limit w root parent expanded_lines (line # lines) depth =
     (case extract_ifany w root parent line of
        Inl e \<Rightarrow> Inl e
      | Inr None \<Rightarrow> expand_loop limit w root parent (expanded_lines @ [line]) lines depth
      | Inr (Some (body_lines, target)) \<Rightarrow>
          (case relative_to target root of
             Inl e \<Rightarrow> Inl e
           | Inr rel \<Rightarrow>
               (case limit of
                  0 \<Rightarrow> Inl RecursionError
                | Suc k \<Rightarrow>
                    (case expand_loop k w root (parent_of target) [] body_lines (depth + 1) of
                       Inl e \<Rightarrow> Inl e
                     | Inr sub \<Rightarrow>
                         expand_loop limit w root parent
                           (expanded_lines @ [open_marker depth (str_of rel)] @ sub
                              @ [close_marker depth (str_of rel)])
                           lines depth))))"

definition expand :: "nat \<Rightarrow> world \<Rightarrow> path \<Rightarrow> path \<Rightarrow> string list \<Rightarrow> int \<Rightarrow> error + string list" where
  "expand limit w root parent lines depth = expand_loop limit w root parent [] lines depth"

section \<open>The driver\<close>

text \<open>
  \<open>parse_args\<close>, after \<open>argparse\<close> has read the command line: \<open>entry_arg\<close> is the
  positional argument and \<open>output_arg\<close> the value of \<open>--output\<close>, \<open>None\<close> when the
  option is absent. An empty output name is replaced by the default as well
  (\<open>parsed.output or ...\<close>).
\<close>

definition parse_args :: "string \<Rightarrow> string option \<Rightarrow> path \<times> path \<times> path" where
  "parse_args entry_arg output_arg =
     (let entry = Path entry_arg;
          entry_fn = name_of entry;
          parent = parent_of entry;
          output = (case output_arg of
                      None \<Rightarrow> ''merged_'' @ entry_fn
                    | Some s \<Rightarrow> if s = [] then ''merged_'' @ entry_fn else s);
          output_fp = joinpath parent output
      in (entry, parent, output_fp))"

text \<open>
  What a run of the program does, as seen from outside: how it ends, what it printed and
  asked on the terminal and which file it wrote completely, in order. The file system a
  run leaves behind is a result of its own.
\<close>

datatype outcome =
    Finished
  | Exited int
  | Uncaught error

datatype event =
    Prompt string
  | Print string
  | Write_file path string

definition overwrite_question :: "path \<Rightarrow> string" where
  "overwrite_question output_fp =
     ''The output file '' @ name_of output_fp
       @ '' already exists. OVERWRITE THIS? ARE YOU SURE? [Y/other]''"

text \<open>
  The second half of \<open>main\<close>, from \<open>root = parent\<close> on. \<open>events\<close> is what happened on the
  terminal before.
\<close>

definition merge_and_write :: "nat \<Rightarrow> world \<Rightarrow> path \<Rightarrow> path \<Rightarrow> path \<Rightarrow> event list
    \<Rightarrow> outcome \<times> event list \<times> world" where
  "merge_and_write limit w entry parent output_fp events =
     (let root = parent in
      case read_text w entry of
        Inl e \<Rightarrow> (Uncaught e, events, w)
      | Inr entry_text \<Rightarrow>
          (case expand limit w root parent (str_split newline entry_text) 0 of
             Inl e \<Rightarrow> (Uncaught e, events, w)
           | Inr result \<Rightarrow>
               (let text = str_join [newline] result in
                case write_text w output_fp text of
                  (Some e, w') \<Rightarrow> (Uncaught e, events, w')
                | (None, w') \<Rightarrow>
                    (Finished,
                     events @ [Write_file output_fp text, Print ''Merged File Written.''],
                     w'))))"

text \<open>
  \<open>main\<close>. \<open>response\<close> is the line \<open>input\<close> reads from the terminal, \<open>None\<close> when the
  standard input is closed; it is read only when the output path exists.
\<close>

definition main :: "nat \<Rightarrow> world \<Rightarrow> string \<Rightarrow> string option \<Rightarrow> string option
    \<Rightarrow> outcome \<times> event list \<times> world" where
  "main limit w entry_arg output_arg response =
     (case parse_args entry_arg output_arg of (entry, parent, output_fp) \<Rightarrow>
        if file_exists w output_fp then
          (case response of
             None \<Rightarrow> (Uncaught EOFError, [Prompt (overwrite_question output_fp)], w)
           | Some r \<Rightarrow>
               if r \<noteq> ''Y'' then
                 (Exited (- 1), [Prompt (overwrite_question output_fp), Print ''Aborted.''], w)
               else merge_and_write limit w entry parent output_fp
                      [Prompt (overwrite_question output_fp)])
        else merge_and_write limit w entry parent output_fp [])"

section \<open>Notions used in the statements\<close>

text \<open>
  The literal text a directive starts with: the backslash, the name of the command and
  the opening brace.
\<close>

definition directive_literal :: "string \<Rightarrow> string" where
  "directive_literal name = backslash # name @ ''{''"

text \<open>
  Two expansions one after the other: the first exception ends both, otherwise the
  output lines follow each other.
\<close>

definition then_lines :: "error + string list \<Rightarrow> error + string list \<Rightarrow> error + string list" where
  "then_lines a b =
     (case a of Inl e \<Rightarrow> Inl e
      | Inr xs \<Rightarrow> (case b of Inl e \<Rightarrow> Inl e | Inr ys \<Rightarrow> Inr (xs @ ys)))"

text \<open>A file system without any file, for concrete runs.\<close>

definition no_files :: world where
  "no_files =
     \<lparr>file_text = (\<lambda>p. None), file_exists = (\<lambda>p. False),
      file_write = (\<lambda>p s. Write_ok)\<rparr>"


text \<open>
  A small project for concrete runs: an entry file that includes a chapter as a whole,
  the chapter includes the body of a section next to it; an entry whose inclusion is
  missing; files that only unusual stems reach; an output file left by an earlier run;
  and a section with two lines that start with the begin marker and none that ends with
  the end marker.
\<close>

definition proj_path :: "string list \<Rightarrow> path" where
  "proj_path names = \<lparr>anchor = ''/'', tail = ''proj'' # names\<rparr>"

definition sample_files :: "(path \<times> string) list" where
  "sample_files =
     [(proj_path [''main.tex''],
         ''intro'' @ newline # backslash # ''input{ch/intro}'' @ newline # ''outro''),
      (proj_path [''ch'', ''intro.tex''], backslash # ''subfile{sec}''),
      (proj_path [''ch'', ''sec.tex''],
         ''preamble'' @ newline # begin_document @ newline # ''body'' @ newline # end_document
           @ newline # ''trailer''),
      (proj_path [''broken.tex''], ''first'' @ newline # backslash # ''input{missing}''),
      (proj_path [''a.tex.tex''], ''x''),
      (proj_path [''..'', ''x.tex''], begin_document @ newline # ''outside''),
      (\<lparr>anchor = ''/'', tail = [''etc'', ''x.tex'']\<rparr>, ''y''),
      (proj_path [''merged_main.tex''], ''old''),
      (proj_path [''ch'', ''twice.tex''],
         ''pre'' @ newline # begin_document @ newline # ''x'' @ newline # begin_document
           @ '' again'' @ newline # ''y'')]"

definition sample_world :: world where
  "sample_world =
     \<lparr>file_text = map_of sample_files,
      file_exists = (\<lambda>p. map_of sample_files p \<noteq> None),
      file_write = (\<lambda>p s. Write_ok)\<rparr>"

text \<open>
  The file a directive with the stem \<open>stem\<close> refers to: the whole-file variant resolves
  against the project root, the document-body variant against the current directory.
\<close>

definition target_of :: "extractor \<Rightarrow> path \<Rightarrow> path \<Rightarrow> string \<Rightarrow> path" where
  "target_of x root parent stem =
     (case x of
        InputExtractor \<Rightarrow> joinpath root (stem @ ''.tex'')
      | SubfileExtractor \<Rightarrow> joinpath parent (stem @ ''.tex''))"

text \<open>
  The expansion of the lines in the directory \<open>parent\<close> comes to a directive whose
  target cannot be read: the first line is such a directive of one of the two variants;
  or the first line is an inclusion that is extracted and lies under the root, and the
  expansion of its body comes to such a directive; or the first line expands and the
  expansion of the remaining lines comes to such a directive.
\<close>

inductive unreadable_directive :: "world \<Rightarrow> path \<Rightarrow> nat \<Rightarrow> path \<Rightarrow> string list \<Rightarrow> int \<Rightarrow> bool"
  for w :: world and root :: path where
  here_input:
    "re_match ''input'' line = Some stem \<Longrightarrow>
     file_text w (joinpath root (stem @ ''.tex'')) = None \<Longrightarrow>
     unreadable_directive w root limit parent (line # lines) d"
| here_subfile:
    "re_match ''subfile'' line = Some stem \<Longrightarrow>
     file_text w (joinpath parent (stem @ ''.tex'')) = None \<Longrightarrow>
     unreadable_directive w root limit parent (line # lines) d"
| inside:
    "extract_ifany w root parent line = Inr (Some (body, target)) \<Longrightarrow>
     relative_to target root = Inr rel \<Longrightarrow>
     unreadable_directive w root k (parent_of target) body (d + 1) \<Longrightarrow>
     unreadable_directive w root (Suc k) parent (line # lines) d"
| later:
    "expand limit w root parent [line] d = Inr out \<Longrightarrow>
     unreadable_directive w root limit parent lines d \<Longrightarrow>
     unreadable_directive w root limit parent (line # lines) d"

code_pred (modes: i \<Rightarrow> i \<Rightarrow> i \<Rightarrow> i \<Rightarrow> i \<Rightarrow> i \<Rightarrow> bool) unreadable_directive .

section \<open>The pattern of a directive\<close>

lemma takeWhile_neq_append:
  "c \<notin> set xs \<Longrightarrow> takeWhile (\<lambda>x. x \<noteq> c) (xs @ ys) = xs @ takeWhile (\<lambda>x. x \<noteq> c) ys"
  by (induction xs) auto

lemma takeWhile_dropWhile_Nil: "takeWhile P (dropWhile P xs) = []"
  by (induction xs) auto

lemma last_brace_split:
  assumes "CHR ''}'' \<in> set seg"
  shows "\<exists>zs. seg = rev (tl (dropWhile (\<lambda>c. c \<noteq> CHR ''}'') (rev seg))) @ CHR ''}'' # zs
              \<and> CHR ''}'' \<notin> set zs"
proof -
  from split_list_last [OF assms] obtain ys zs
    where seg: "seg = ys @ CHR ''}'' # zs" and zs: "CHR ''}'' \<notin> set zs" by blast
  have "dropWhile (\<lambda>c. c \<noteq> CHR ''}'') (rev zs @ CHR ''}'' # rev ys) = CHR ''}'' # rev ys"
    using zs by (simp add: dropWhile_append)
  then have "rev (tl (dropWhile (\<lambda>c. c \<noteq> CHR ''}'') (rev seg))) = ys"
    by (simp add: seg)
  then show ?thesis using seg zs by auto
qed

lemma re_match_SomeD:
  assumes "re_match name line = Some stem"
  shows "\<exists>rest. line = directive_literal name @ stem @ ''}'' @ rest
           \<and> newline \<notin> set stem
           \<and> CHR ''}'' \<notin> set (takeWhile (\<lambda>c. c \<noteq> newline) rest)"
proof -
  let ?lit = "directive_literal name"
  let ?seg = "takeWhile (\<lambda>c. c \<noteq> newline) (drop (length ?lit) line)"
  from assms have pre: "prefix ?lit line" and br: "CHR ''}'' \<in> set ?seg"
    and stem: "stem = rev (tl (dropWhile (\<lambda>c. c \<noteq> CHR ''}'') (rev ?seg)))"
    by (auto simp add: re_match_def directive_literal_def Let_def split: if_splits)
  from last_brace_split [OF br] stem obtain zs
    where seg: "?seg = stem @ CHR ''}'' # zs" and zs: "CHR ''}'' \<notin> set zs" by auto
  from pre have line: "line = ?lit @ drop (length ?lit) line"
    by (auto simp add: prefix_def)
  have tw: "drop (length ?lit) line = ?seg @ dropWhile (\<lambda>c. c \<noteq> newline) (drop (length ?lit) line)"
    by simp
  let ?rest = "zs @ dropWhile (\<lambda>c. c \<noteq> newline) (drop (length ?lit) line)"
  have "line = ?lit @ stem @ ''}'' @ ?rest"
    using line tw seg by (metis append.assoc append_Cons append_Nil)
  moreover have "newline \<notin> set stem"
  proof
    assume "newline \<in> set stem"
    then have "newline \<in> set ?seg" by (simp add: seg)
    then show False by (auto dest: set_takeWhileD)
  qed
  moreover have "CHR ''}'' \<notin> set (takeWhile (\<lambda>c. c \<noteq> newline) ?rest)"
  proof -
    have "\<forall>c\<in>set zs. c \<noteq> newline"
    proof
      fix c assume "c \<in> set zs"
      then have "c \<in> set ?seg" by (simp add: seg)
      then show "c \<noteq> newline" by (auto dest: set_takeWhileD)
    qed
    then have "takeWhile (\<lambda>c. c \<noteq> newline) ?rest
        = zs @ takeWhile (\<lambda>c. c \<noteq> newline) (dropWhile (\<lambda>c. c \<noteq> newline) (drop (length ?lit) line))"
      by (simp add: takeWhile_append2)
    moreover have "takeWhile (\<lambda>c. c \<noteq> newline) (dropWhile (\<lambda>c. c \<noteq> newline) (drop (length ?lit) line)) = []"
      by (rule takeWhile_dropWhile_Nil)
    ultimately show ?thesis using zs by simp
  qed
  ultimately show ?thesis by blast
qed

lemma re_match_SomeI:
  assumes "line = directive_literal name @ stem @ ''}'' @ rest"
      and "newline \<notin> set stem"
      and "CHR ''}'' \<notin> set (takeWhile (\<lambda>c. c \<noteq> newline) rest)"
  shows "re_match name line = Some stem"
proof -
  let ?lit = "directive_literal name"
  let ?t = "takeWhile (\<lambda>c. c \<noteq> newline) rest"
  have nl: "CHR ''}'' \<noteq> newline" by (simp add: newline_def)
  have seg: "takeWhile (\<lambda>c. c \<noteq> newline) (drop (length ?lit) line) = stem @ CHR ''}'' # ?t"
    using assms(2) nl by (simp add: assms(1) takeWhile_neq_append)
  have "dropWhile (\<lambda>c. c \<noteq> CHR ''}'') (rev ?t @ CHR ''}'' # rev stem) = CHR ''}'' # rev stem"
    using assms(3) by (simp add: dropWhile_append)
  then have "rev (tl (dropWhile (\<lambda>c. c \<noteq> CHR ''}'') (rev (stem @ CHR ''}'' # ?t)))) = stem"
    by simp
  moreover have "prefix ?lit line" by (simp add: assms(1))
  ultimately show ?thesis
    using seg by (simp add: re_match_def directive_literal_def [symmetric] Let_def)
qed

lemma matches_iff:
  "matches x line \<longleftrightarrow>
     (\<exists>arg rest. line = directive_literal (pat x) @ arg @ ''}'' @ rest \<and> newline \<notin> set arg)"
proof
  assume "matches x line"
  then obtain stem where "re_match (pat x) line = Some stem"
    by (auto simp add: matches_def)
  from re_match_SomeD [OF this] show "\<exists>arg rest. line = directive_literal (pat x) @ arg @ ''}'' @ rest \<and> newline \<notin> set arg"
    by blast
next
  assume "\<exists>arg rest. line = directive_literal (pat x) @ arg @ ''}'' @ rest \<and> newline \<notin> set arg"
  then obtain arg rest where line: "line = directive_literal (pat x) @ arg @ ''}'' @ rest"
    and arg: "newline \<notin> set arg" by blast
  let ?lit = "directive_literal (pat x)"
  have nl: "CHR ''}'' \<noteq> newline" by (simp add: newline_def)
  have "takeWhile (\<lambda>c. c \<noteq> newline) (drop (length ?lit) line)
      = arg @ CHR ''}'' # takeWhile (\<lambda>c. c \<noteq> newline) rest"
    using arg nl by (simp add: line takeWhile_neq_append)
  moreover have "prefix ?lit line" by (simp add: line)
  ultimately show "matches x line"
    by (simp add: matches_def re_match_def directive_literal_def [symmetric] Let_def)
qed

lemma matches_prefix: "matches x line \<Longrightarrow> prefix (directive_literal (pat x)) line"
  by (auto simp add: matches_iff)

lemma matches_exclusive: "\<not> (matches InputExtractor line \<and> matches SubfileExtractor line)"
proof
  assume "matches InputExtractor line \<and> matches SubfileExtractor line"
  then have "prefix (directive_literal ''input'') line" "prefix (directive_literal ''subfile'') line"
    using matches_prefix [of InputExtractor line] matches_prefix [of SubfileExtractor line] by simp_all
  then show False
    by (auto simp add: directive_literal_def prefix_def)
qed

section \<open>The expansion of a list of lines, line by line\<close>

lemma expand_loop_acc:
  "expand_loop limit w root parent acc lines depth =
     map_sum id ((@) acc) (expand_loop limit w root parent [] lines depth)"
proof (induction lines arbitrary: acc)
  case Nil
  show ?case by simp
next
  case (Cons line lines)
  note IH = Cons.IH
  show ?case
  proof (cases "extract_ifany w root parent line")
    case (Inl e)
    then show ?thesis by simp
  next
    case (Inr r)
    show ?thesis
    proof (cases r)
      case None
      have "expand_loop limit w root parent (acc @ [line]) lines depth =
            map_sum id ((@) (acc @ [line])) (expand_loop limit w root parent [] lines depth)"
        by (rule IH)
      moreover have "expand_loop limit w root parent [line] lines depth =
            map_sum id ((@) [line]) (expand_loop limit w root parent [] lines depth)"
        by (rule IH)
      ultimately show ?thesis using Inr None
        by (cases "expand_loop limit w root parent [] lines depth") simp_all
    next
      case (Some bt)
      obtain body target where bt: "bt = (body, target)" by (cases bt)
      show ?thesis
      proof (cases "relative_to target root")
        case (Inl e)
        then show ?thesis using Inr Some bt by simp
      next
        case rel: (Inr rel)
        show ?thesis
        proof (cases limit)
          case 0
          then show ?thesis using Inr Some bt rel by simp
        next
          case (Suc k)
          show ?thesis
          proof (cases "expand_loop k w root (parent_of target) [] body (depth + 1)")
            case (Inl e)
            then show ?thesis using Inr Some bt rel Suc by simp
          next
            case sub: (Inr sub)
            let ?m = "[open_marker depth (str_of rel)] @ sub @ [close_marker depth (str_of rel)]"
            have "expand_loop limit w root parent (acc @ ?m) lines depth =
                  map_sum id ((@) (acc @ ?m)) (expand_loop limit w root parent [] lines depth)"
              by (rule IH)
            moreover have "expand_loop limit w root parent ([] @ ?m) lines depth =
                  map_sum id ((@) ([] @ ?m)) (expand_loop limit w root parent [] lines depth)"
              by (rule IH)
            ultimately show ?thesis using Inr Some bt rel Suc sub
              by (cases "expand_loop limit w root parent [] lines depth") simp_all
          qed
        qed
      qed
    qed
  qed
qed

lemma then_lines_simps [simp]:
  "then_lines (Inl e) b = Inl e"
  "then_lines (Inr xs) (Inl e) = Inl e"
  "then_lines (Inr xs) (Inr ys) = Inr (xs @ ys)"
  by (simp_all add: then_lines_def)

lemma then_lines_assoc: "then_lines (then_lines a b) c = then_lines a (then_lines b c)"
  by (cases a; cases b; cases c) simp_all


lemma expand_Nil [simp]: "expand limit w root parent [] depth = Inr []"
  by (simp add: expand_def)

lemma expand_Cons:
  "expand limit w root parent (line # lines) depth =
     then_lines (expand limit w root parent [line] depth) (expand limit w root parent lines depth)"
proof -
  have acc: "\<And>acc. expand_loop limit w root parent acc lines depth =
      map_sum id ((@) acc) (expand limit w root parent lines depth)"
    unfolding expand_def by (rule expand_loop_acc)
  show ?thesis
  proof (cases "extract_ifany w root parent line")
    case (Inl e)
    then show ?thesis by (simp add: expand_def)
  next
    case (Inr r)
    show ?thesis
    proof (cases r)
      case None
      then show ?thesis using Inr acc [of "[line]"]
        by (cases "expand limit w root parent lines depth") (simp_all add: expand_def)
    next
      case (Some bt)
      obtain body target where bt: "bt = (body, target)" by (cases bt)
      show ?thesis
      proof (cases "relative_to target root")
        case (Inl e)
        then show ?thesis using Inr Some bt by (simp add: expand_def)
      next
        case rel: (Inr rel)
        show ?thesis
        proof (cases limit)
          case 0
          then show ?thesis using Inr Some bt rel by (simp add: expand_def)
        next
          case (Suc k)
          show ?thesis
          proof (cases "expand_loop k w root (parent_of target) [] body (depth + 1)")
            case (Inl e)
            then show ?thesis using Inr Some bt rel Suc by (simp add: expand_def)
          next
            case sub: (Inr sub)
            let ?m = "open_marker depth (str_of rel) # sub @ [close_marker depth (str_of rel)]"
            show ?thesis using Inr Some bt rel Suc sub acc [of ?m]
              by (cases "expand limit w root parent lines depth") (simp_all add: expand_def)
          qed
        qed
      qed
    qed
  qed
qed

lemma expand_append:
  "expand limit w root parent (xs @ ys) depth =
     then_lines (expand limit w root parent xs depth) (expand limit w root parent ys depth)"
proof (induction xs)
  case Nil
  show ?case by (cases "expand limit w root parent ys depth") simp_all
next
  case (Cons x xs)
  have "expand limit w root parent ((x # xs) @ ys) depth =
        then_lines (expand limit w root parent [x] depth) (expand limit w root parent (xs @ ys) depth)"
    by (simp add: expand_Cons [of _ _ _ _ x "xs @ ys"])
  also have "\<dots> = then_lines (then_lines (expand limit w root parent [x] depth)
        (expand limit w root parent xs depth)) (expand limit w root parent ys depth)"
    by (simp add: Cons.IH then_lines_assoc)
  also have "\<dots> = then_lines (expand limit w root parent (x # xs) depth) (expand limit w root parent ys depth)"
    by (simp add: expand_Cons [of _ _ _ _ x xs])
  finally show ?case .
qed

lemma expand_single_nomatch:
  "extract_ifany w root parent line = Inr None \<Longrightarrow> expand limit w root parent [line] depth = Inr [line]"
  by (simp add: expand_def)

lemma expand_single_error:
  "extract_ifany w root parent line = Inl e \<Longrightarrow> expand limit w root parent [line] depth = Inl e"
  by (simp add: expand_def)

lemma expand_single_match:
  "extract_ifany w root parent line = Inr (Some (body, target)) \<Longrightarrow>
   expand limit w root parent [line] depth =
     (case relative_to target root of
        Inl e \<Rightarrow> Inl e
      | Inr rel \<Rightarrow>
          (case limit of
             0 \<Rightarrow> Inl RecursionError
           | Suc k \<Rightarrow>
               (case expand k w root (parent_of target) body (depth + 1) of
                  Inl e \<Rightarrow> Inl e
                | Inr sub \<Rightarrow> Inr (open_marker depth (str_of rel) # sub @ [close_marker depth (str_of rel)]))))"
  by (simp add: expand_def split: sum.splits nat.splits)

section \<open>Lines that are no directive\<close>

lemma extract_ifany_nomatch:
  "\<not> matches InputExtractor line \<Longrightarrow> \<not> matches SubfileExtractor line \<Longrightarrow>
   extract_ifany w root parent line = Inr None"
  by (simp add: extract_ifany_def extractors_def)

lemma expand_nomatch_lines:
  "\<forall>line\<in>set lines. \<not> matches InputExtractor line \<and> \<not> matches SubfileExtractor line \<Longrightarrow>
   expand limit w root parent lines depth = Inr lines"
proof (induction lines)
  case Nil
  show ?case by simp
next
  case (Cons line lines)
  then have "extract_ifany w root parent line = Inr None"
    by (simp add: extract_ifany_nomatch)
  then have "expand limit w root parent [line] depth = Inr [line]"
    by (rule expand_single_nomatch)
  moreover have "expand limit w root parent lines depth = Inr lines"
    using Cons by simp
  ultimately show ?case
    by (simp add: expand_Cons [of _ _ _ _ line lines])
qed

text \<open>
  Claim C4. When no line of the input matches a directive variant, the expansion returns
  the input lines themselves, in the same order, for every file system, project root,
  current directory, depth and bound on the nesting.
\<close>

theorem expand_identity_without_directives:
  assumes "\<forall>line\<in>set lines. \<not> matches InputExtractor line \<and> \<not> matches SubfileExtractor line"
  shows "expand limit w root parent lines depth = Inr lines"
  using assms by (rule expand_nomatch_lines)

lemma not_matches_plain: "\<not> matches x ''plain text''"
  by (cases x) (simp_all add: matches_def re_match_def backslash_def)

lemma not_matches_indented: "\<not> matches x (CHR '' '' # backslash # ''input{a}'')"
  by (cases x) (simp_all add: matches_def re_match_def backslash_def)

theorem expand_identity_without_directives_witness:
  "\<not> matches InputExtractor ''plain text''
   \<and> \<not> matches SubfileExtractor ''plain text''
   \<and> \<not> matches InputExtractor (CHR '' '' # backslash # ''input{a}'')
   \<and> \<not> matches SubfileExtractor (CHR '' '' # backslash # ''input{a}'')
   \<and> expand 0 no_files (Path ''/proj'') (Path ''/proj/sub'')
        [''plain text'', CHR '' '' # backslash # ''input{a}''] 3
      = Inr [''plain text'', CHR '' '' # backslash # ''input{a}'']"
proof -
  have h: "\<forall>line\<in>set [''plain text'', CHR '' '' # backslash # ''input{a}''].
      \<not> matches InputExtractor line \<and> \<not> matches SubfileExtractor line"
    by (simp add: not_matches_plain not_matches_indented)
  show ?thesis
    using expand_identity_without_directives [OF h, of 0 no_files "Path ''/proj''" "Path ''/proj/sub''" 3]
    by (simp add: not_matches_plain not_matches_indented)
qed

text \<open>
  Claim C6. No line matches both the whole-file variant and the document-body variant, so
  trying the two extractors in the other order gives the same result on every line.
\<close>

theorem directive_variants_exclusive:
  "\<not> (matches InputExtractor line \<and> matches SubfileExtractor line)
   \<and> extract_first [InputExtractor, SubfileExtractor] w root parent line
       = extract_first [SubfileExtractor, InputExtractor] w root parent line"
  using matches_exclusive [of line] by auto

text \<open>
  Claim C5. \<open>matches\<close> depends on the extractor and the line only. It holds exactly when
  the line is the literal prefix of the directive, an argument without newline, a closing
  brace and any remaining text. A line that does not start with the literal prefix does
  not match, whatever follows its first character, and a line that starts with neither
  prefix is passed through unchanged by the expansion.
\<close>

theorem matches_tests_start_of_line:
  "(matches x line \<longleftrightarrow>
      (\<exists>arg rest. line = backslash # pat x @ ''{'' @ arg @ ''}'' @ rest \<and> newline \<notin> set arg))
   \<and> (\<not> prefix (backslash # pat x @ ''{'') line \<longrightarrow> \<not> matches x line)
   \<and> (\<not> prefix (backslash # ''input{'') line \<and> \<not> prefix (backslash # ''subfile{'') line \<longrightarrow>
        expand limit w root parent [line] depth = Inr [line])"
proof (intro conjI impI)
  show "matches x line \<longleftrightarrow>
      (\<exists>arg rest. line = backslash # pat x @ ''{'' @ arg @ ''}'' @ rest \<and> newline \<notin> set arg)"
    using matches_iff [of x line] by (simp add: directive_literal_def)
next
  assume "\<not> prefix (backslash # pat x @ ''{'') line"
  then show "\<not> matches x line"
    using matches_prefix [of x line] by (auto simp add: directive_literal_def)
next
  assume a: "\<not> prefix (backslash # ''input{'') line \<and> \<not> prefix (backslash # ''subfile{'') line"
  have "\<not> matches InputExtractor line" "\<not> matches SubfileExtractor line"
    using a matches_prefix [of InputExtractor line] matches_prefix [of SubfileExtractor line]
    by (auto simp add: directive_literal_def)
  then have "extract_ifany w root parent line = Inr None"
    by (rule extract_ifany_nomatch)
  then show "expand limit w root parent [line] depth = Inr [line]"
    by (rule expand_single_nomatch)
qed

theorem matches_tests_start_of_line_witness:
  "\<not> prefix (backslash # ''input{'') (CHR '' '' # backslash # ''input{a}'')
   \<and> \<not> prefix (backslash # ''subfile{'') (CHR '' '' # backslash # ''input{a}'')
   \<and> \<not> matches InputExtractor (CHR '' '' # backslash # ''input{a}'')
   \<and> expand 1 no_files (Path ''/proj'') (Path ''/proj'') [CHR '' '' # backslash # ''input{a}''] 0
       = Inr [CHR '' '' # backslash # ''input{a}'']
   \<and> matches InputExtractor (backslash # ''input{a} % note'')"
proof -
  have p1: "\<not> prefix (backslash # ''input{'') (CHR '' '' # backslash # ''input{a}'')"
    by (simp add: backslash_def)
  have p2: "\<not> prefix (backslash # ''subfile{'') (CHR '' '' # backslash # ''input{a}'')"
    by (simp add: backslash_def)
  have e: "backslash # ''input{a} % note'' = backslash # pat InputExtractor @ ''{'' @ ''a'' @ ''}'' @ '' % note''
      \<and> newline \<notin> set ''a''"
    by (simp add: newline_def)
  note t1 = matches_tests_start_of_line [of InputExtractor "CHR '' '' # backslash # ''input{a}''" 1 no_files
       "Path ''/proj''" "Path ''/proj''" 0]
  note t2 = matches_tests_start_of_line [of InputExtractor "backslash # ''input{a} % note''" 1 no_files
       "Path ''/proj''" "Path ''/proj''" 0]
  have m: "matches InputExtractor (backslash # ''input{a} % note'')"
    using t2 e by blast
  have n: "\<not> matches InputExtractor (CHR '' '' # backslash # ''input{a}'')"
    using t1 p1 by simp
  have x: "expand 1 no_files (Path ''/proj'') (Path ''/proj'') [CHR '' '' # backslash # ''input{a}''] 0
       = Inr [CHR '' '' # backslash # ''input{a}'']"
    using t1 p1 p2 by blast
  show ?thesis using p1 p2 m n x by blast
qed

section \<open>Splitting and joining\<close>

lemma str_split_not_Nil [simp]: "str_split sep s \<noteq> []"
  by (induction s) (auto split: list.splits)

lemma str_join_Cons_Cons: "str_join sep ((c # x) # xs) = c # str_join sep (x # xs)"
  by (cases xs) simp_all

lemma str_join_str_split: "str_join [sep] (str_split sep s) = s"
proof (induction s)
  case Nil
  show ?case by simp
next
  case (Cons c cs)
  obtain x xs where sp: "str_split sep cs = x # xs"
    by (cases "str_split sep cs") simp_all
  show ?case
  proof (cases "c = sep")
    case True
    then show ?thesis using Cons sp by simp
  next
    case False
    then show ?thesis using Cons sp by (simp add: str_join_Cons_Cons)
  qed
qed

lemma str_split_no_sep: "l \<in> set (str_split sep s) \<Longrightarrow> sep \<notin> set l"
proof (induction s arbitrary: l)
  case Nil
  then show ?case by simp
next
  case (Cons c cs)
  obtain x xs where sp: "str_split sep cs = x # xs"
    by (cases "str_split sep cs") simp_all
  have x: "sep \<notin> set x" and xs: "\<And>y. y \<in> set xs \<Longrightarrow> sep \<notin> set y"
    using Cons.IH sp by simp_all
  show ?case
  proof (cases "c = sep")
    case True
    then show ?thesis using Cons.prems sp x xs by auto
  next
    case False
    then show ?thesis using Cons.prems sp x xs by auto
  qed
qed

lemma str_split_line: "sep \<notin> set x \<Longrightarrow> str_split sep x = [x]"
  by (induction x) auto

lemma str_split_line_sep:
  "sep \<notin> set x \<Longrightarrow> str_split sep (x @ sep # rest) = x # str_split sep rest"
  by (induction x) auto

lemma str_split_str_join:
  "ls \<noteq> [] \<Longrightarrow> \<forall>l\<in>set ls. sep \<notin> set l \<Longrightarrow> str_split sep (str_join [sep] ls) = ls"
proof (induction ls)
  case Nil
  then show ?case by simp
next
  case (Cons x ls)
  show ?case
  proof (cases ls)
    case Nil
    then show ?thesis using Cons.prems by (simp add: str_split_line)
  next
    case (Cons y ys)
    then have "str_join [sep] (x # ls) = x @ sep # str_join [sep] ls" by simp
    moreover have "str_split sep (str_join [sep] ls) = ls"
      using Cons Cons.IH Cons.prems by simp
    ultimately show ?thesis using Cons.prems by (simp add: str_split_line_sep)
  qed
qed

lemma length_str_split:
  "length (str_split sep s) = Suc (length (filter (\<lambda>c. c = sep) s))"
proof (induction s)
  case Nil
  show ?case by simp
next
  case (Cons c cs)
  obtain x xs where "str_split sep cs = x # xs"
    by (cases "str_split sep cs") simp_all
  then show ?case using Cons by simp
qed


section \<open>Joining paths\<close>

lemma anchor_Path_relative: "s = [] \<or> hd s \<noteq> CHR ''/'' \<Longrightarrow> anchor (Path s) = []"
  by (auto simp add: Path_def splitroot_def)

lemma anchor_Path_rooted: "s \<noteq> [] \<Longrightarrow> hd s = CHR ''/'' \<Longrightarrow> anchor (Path s) \<noteq> []"
  by (auto simp add: Path_def splitroot_def Let_def)

lemma joinpath_relative:
  "s = [] \<or> hd s \<noteq> CHR ''/'' \<Longrightarrow>
   joinpath p s = \<lparr>anchor = anchor p, tail = tail p @ tail (Path s)\<rparr>"
  by (simp add: joinpath_def Let_def anchor_Path_relative)

lemma joinpath_rooted:
  "s \<noteq> [] \<Longrightarrow> hd s = CHR ''/'' \<Longrightarrow> joinpath p s = Path s"
  by (simp add: joinpath_def Let_def anchor_Path_rooted)

section \<open>What the two extractors return\<close>

lemma extract_ifany_input:
  assumes "re_match ''input'' line = Some stem"
  shows "extract_ifany w root parent line =
     (case file_text w (joinpath root (stem @ ''.tex'')) of
        None \<Rightarrow> Inl ReadError
      | Some text \<Rightarrow> Inr (Some (str_split newline text, joinpath root (stem @ ''.tex''))))"
  using assms
  by (simp add: extract_ifany_def extractors_def matches_def read_text_def Let_def
      split: option.splits)

lemma extract_ifany_subfile:
  assumes "re_match ''subfile'' line = Some stem"
  shows "extract_ifany w root parent line =
     (case file_text w (joinpath parent (stem @ ''.tex'')) of
        None \<Rightarrow> Inl ReadError
      | Some text \<Rightarrow>
          Inr (Some (scan_body False [] (str_split newline text), joinpath parent (stem @ ''.tex''))))"
proof -
  have "matches SubfileExtractor line" using assms by (simp add: matches_def)
  then have "\<not> matches InputExtractor line" using matches_exclusive [of line] by blast
  then show ?thesis using assms
    by (simp add: extract_ifany_def extractors_def matches_def read_text_def Let_def
        split: option.splits)
qed








lemmas sample_eval = sample_world_def sample_files_def proj_path_def Path_def splitroot_def
  joinpath_def parent_of_def relative_to_def str_of_def name_of_def read_text_def
  extract_ifany_def extractors_def matches_def re_match_def backslash_def newline_def
  begin_document_def end_document_def suffix_to_prefix open_marker_def close_marker_def expand_def Let_def

text \<open>
  Claim C3. For a whole-file include whose braces hold the stem \<open>S\<close>, the target is the
  project root joined with \<open>S.tex\<close>, whatever the current directory is; for a stem
  that does not start with a slash these are the components of the root followed by
  those of \<open>S.tex\<close>. When the target can be read, the body is its text split into
  lines at the newlines: no line of the body holds a newline, there is one line more
  than there are newlines in the text, and joining the lines with newlines gives the
  text back, so nothing is dropped or changed. The body is the only list of lines with
  these properties.
\<close>

theorem input_extract_whole_file:
  assumes "line = backslash # ''input{'' @ stem @ ''}'' @ rest"
      and "newline \<notin> set stem"
      and "CHR ''}'' \<notin> set (takeWhile (\<lambda>c. c \<noteq> newline) rest)"
      and "file_text w (joinpath root (stem @ ''.tex'')) = Some text"
  shows "extract_ifany w root parent line
           = Inr (Some (str_split newline text, joinpath root (stem @ ''.tex'')))
         \<and> str_join [newline] (str_split newline text) = text
         \<and> (stem = [] \<or> hd stem \<noteq> CHR ''/'' \<longrightarrow>
              joinpath root (stem @ ''.tex'')
                = \<lparr>anchor = anchor root, tail = tail root @ tail (Path (stem @ ''.tex''))\<rparr>)
         \<and> (\<forall>l\<in>set (str_split newline text). newline \<notin> set l)
         \<and> length (str_split newline text) = Suc (length (filter (\<lambda>c. c = newline) text))
         \<and> (\<forall>ls. ls \<noteq> [] \<and> (\<forall>l\<in>set ls. newline \<notin> set l) \<and> str_join [newline] ls = text
                \<longrightarrow> ls = str_split newline text)"
proof (intro conjI impI allI ballI)
  have "re_match ''input'' line = Some stem"
    using assms(1-3) by (intro re_match_SomeI [where rest = rest]) (simp_all add: directive_literal_def)
  then show "extract_ifany w root parent line
           = Inr (Some (str_split newline text, joinpath root (stem @ ''.tex'')))"
    using assms(4) by (simp add: extract_ifany_input)
next
  show "str_join [newline] (str_split newline text) = text"
    by (rule str_join_str_split)
next
  assume "stem = [] \<or> hd stem \<noteq> CHR ''/''"
  then have "stem @ ''.tex'' = [] \<or> hd (stem @ ''.tex'') \<noteq> CHR ''/''"
    by (cases stem) simp_all
  then show "joinpath root (stem @ ''.tex'')
                = \<lparr>anchor = anchor root, tail = tail root @ tail (Path (stem @ ''.tex''))\<rparr>"
    by (rule joinpath_relative)
next
  fix l assume "l \<in> set (str_split newline text)"
  then show "newline \<notin> set l" by (rule str_split_no_sep)
next
  show "length (str_split newline text) = Suc (length (filter (\<lambda>c. c = newline) text))"
    by (rule length_str_split)
next
  fix ls
  assume a: "ls \<noteq> [] \<and> (\<forall>l\<in>set ls. newline \<notin> set l) \<and> str_join [newline] ls = text"
  then have "str_split newline (str_join [newline] ls) = ls"
    by (intro str_split_str_join) simp_all
  then show "ls = str_split newline text" using a by simp
qed

theorem input_extract_whole_file_witness:
  "extract_ifany sample_world (proj_path []) (proj_path [''ch'']) (backslash # ''input{main}'')
     = Inr (Some ([''intro'', backslash # ''input{ch/intro}'', ''outro''], proj_path [''main.tex'']))
   \<and> length [''intro'', backslash # ''input{ch/intro}'', ''outro'']
       = Suc (length (filter (\<lambda>c. c = newline)
           (''intro'' @ newline # backslash # ''input{ch/intro}'' @ newline # ''outro'')))"
proof -
  let ?text = "''intro'' @ newline # backslash # ''input{ch/intro}'' @ newline # ''outro''"
  have 1: "backslash # ''input{main}'' = backslash # ''input{'' @ ''main'' @ ''}'' @ []"
    by simp
  have 2: "newline \<notin> set ''main''" by (simp add: newline_def)
  have 3: "CHR ''}'' \<notin> set (takeWhile (\<lambda>c. c \<noteq> newline) [])" by simp
  have 4: "file_text sample_world (joinpath (proj_path []) (''main'' @ ''.tex'')) = Some ?text"
    by (simp add: sample_eval)
  have 5: "joinpath (proj_path []) (''main'' @ ''.tex'') = proj_path [''main.tex'']"
    by (simp add: sample_eval)
  have 6: "str_split newline ?text = [''intro'', backslash # ''input{ch/intro}'', ''outro'']"
    by (simp add: backslash_def newline_def)
  show ?thesis
    using input_extract_whole_file [OF 1 2 3 4, of "proj_path [''ch'']"] by (simp only: 5 6)
qed




section \<open>Provenance markers\<close>


lemma expand_around_line:
  "expand limit w root parent (pre @ line # post) d =
     then_lines (expand limit w root parent pre d)
       (then_lines (expand limit w root parent [line] d) (expand limit w root parent post d))"
  by (simp add: expand_append [of _ _ _ _ pre "line # post"] expand_Cons [of _ _ _ _ line post])




section \<open>The driver and unreadable targets\<close>

lemma unreadable_directive_expand:
  "unreadable_directive w root limit parent lines d \<Longrightarrow>
   expand limit w root parent lines d = Inl ReadError"
proof (induction rule: unreadable_directive.induct)
  case (here_input line stem limit parent lines d)
  then have "extract_ifany w root parent line = Inl ReadError"
    by (simp add: extract_ifany_input)
  then have "expand limit w root parent [line] d = Inl ReadError"
    by (rule expand_single_error)
  then show ?case by (simp add: expand_Cons [of _ _ _ _ line lines])
next
  case (here_subfile line stem parent limit lines d)
  then have "extract_ifany w root parent line = Inl ReadError"
    by (simp add: extract_ifany_subfile)
  then have "expand limit w root parent [line] d = Inl ReadError"
    by (rule expand_single_error)
  then show ?case by (simp add: expand_Cons [of _ _ _ _ line lines])
next
  case (inside parent line body target rel k d lines)
  have "expand (Suc k) w root parent [line] d = Inl ReadError"
    using inside.IH inside(2) by (simp add: expand_single_match [OF inside(1)])
  then show ?case by (simp add: expand_Cons [of _ _ _ _ line lines])
next
  case (later limit parent line d out lines)
  then show ?case by (simp add: expand_Cons [of _ _ _ _ line lines])
qed

lemma merge_and_write_error:
  assumes "file_text w entry = Some text"
      and "expand limit w parent parent (str_split newline text) 0 = Inl e"
  shows "merge_and_write limit w entry parent output_fp events = (Uncaught e, events, w)"
  using assms by (simp add: merge_and_write_def read_text_def)

lemma main_reaches_merge:
  assumes "parse_args entry_arg output_arg = (entry, parent, output_fp)"
      and "file_exists w output_fp \<longrightarrow> response = Some ''Y''"
  shows "main limit w entry_arg output_arg response =
     merge_and_write limit w entry parent output_fp
       (if file_exists w output_fp then [Prompt (overwrite_question output_fp)] else [])"
  using assms by (auto simp add: main_def)

text \<open>
  Claim C7. Take a run that gets past the overwrite question (the output path does not
  exist, or the answer is \<open>Y\<close>) and reads its entry file. When the expansion comes to a
  matched directive whose target cannot be read, at any depth of nesting, the run ends
  with the uncaught error of that read. Nothing is written: the terminal has seen the
  question at most, and the file system is as it was.
\<close>

theorem unreadable_target_aborts_run:
  assumes "parse_args entry_arg output_arg = (entry, parent, output_fp)"
      and "file_exists w output_fp \<longrightarrow> response = Some ''Y''"
      and "file_text w entry = Some text"
      and "unreadable_directive w parent limit parent (str_split newline text) 0"
  shows "main limit w entry_arg output_arg response =
           (Uncaught ReadError,
            if file_exists w output_fp then [Prompt (overwrite_question output_fp)] else [],
            w)"
proof -
  have "expand limit w parent parent (str_split newline text) 0 = Inl ReadError"
    using assms(4) by (rule unreadable_directive_expand)
  then show ?thesis
    using assms(1-3) by (simp only: main_reaches_merge merge_and_write_error)
qed

theorem unreadable_target_aborts_run_witness:
  "main 5 sample_world ''/proj/broken.tex'' None None = (Uncaught ReadError, [], sample_world)"
proof -
  let ?root = "proj_path []"
  let ?text = "''first'' @ newline # backslash # ''input{missing}''"
  have 1: "parse_args ''/proj/broken.tex'' None
      = (proj_path [''broken.tex''], ?root, proj_path [''merged_broken.tex''])"
    by (simp add: parse_args_def sample_eval)
  have ex: "\<not> file_exists sample_world (proj_path [''merged_broken.tex''])"
    by (simp add: sample_eval)
  then have 2: "file_exists sample_world (proj_path [''merged_broken.tex'']) \<longrightarrow> None = Some ''Y''"
    by simp
  have 3: "file_text sample_world (proj_path [''broken.tex'']) = Some ?text"
    by (simp add: sample_eval)
  have sp: "str_split newline ?text = [''first'', backslash # ''input{missing}'']"
    by (simp add: backslash_def newline_def)
  have a: "expand 5 sample_world ?root ?root [''first''] 0 = Inr [''first'']"
    by (intro expand_nomatch_lines) (simp add: matches_def re_match_def backslash_def)
  have b: "re_match ''input'' (backslash # ''input{missing}'') = Some ''missing''"
    by (simp add: re_match_def backslash_def newline_def)
  have c: "file_text sample_world (joinpath ?root (''missing'' @ ''.tex'')) = None"
    by (simp add: sample_eval)
  have "unreadable_directive sample_world ?root 5 ?root [backslash # ''input{missing}''] 0"
    using b c by (rule unreadable_directive.here_input)
  with a have 4: "unreadable_directive sample_world ?root 5 ?root (str_split newline ?text) 0"
    unfolding sp by (rule unreadable_directive.later)
  show ?thesis
    using unreadable_target_aborts_run [OF 1 2 3 4] ex by simp
qed

text \<open>
  Claim C9. When the output path exists, the first thing a run does is to ask the overwrite
  question. An answer other than \<open>Y\<close> ends the run with exit status \<open>-1\<close> after the
  message \<open>Aborted.\<close>, and a closed standard input ends it with an uncaught error; in
  both cases nothing is written and the file system, the existing output file included,
  is as it was.
\<close>

theorem overwrite_needs_exact_Y:
  assumes "parse_args entry_arg output_arg = (entry, parent, output_fp)"
      and "file_exists w output_fp"
  shows "(\<exists>out events w'. main limit w entry_arg output_arg response
             = (out, Prompt (overwrite_question output_fp) # events, w'))
       \<and> (\<forall>r. response = Some r \<and> r \<noteq> ''Y'' \<longrightarrow>
             main limit w entry_arg output_arg response
               = (Exited (- 1), [Prompt (overwrite_question output_fp), Print ''Aborted.''], w))
       \<and> (response = None \<longrightarrow>
             main limit w entry_arg output_arg response
               = (Uncaught EOFError, [Prompt (overwrite_question output_fp)], w))"
proof (intro conjI allI impI)
  show "\<exists>out events w'. main limit w entry_arg output_arg response
             = (out, Prompt (overwrite_question output_fp) # events, w')"
    using assms
    by (auto simp add: main_def merge_and_write_def Let_def
        split: option.splits sum.splits prod.splits)
next
  fix r assume "response = Some r \<and> r \<noteq> ''Y''"
  then show "main limit w entry_arg output_arg response
               = (Exited (- 1), [Prompt (overwrite_question output_fp), Print ''Aborted.''], w)"
    using assms by (auto simp add: main_def)
next
  assume "response = None"
  then show "main limit w entry_arg output_arg response
               = (Uncaught EOFError, [Prompt (overwrite_question output_fp)], w)"
    using assms by (simp add: main_def)
qed

theorem overwrite_needs_exact_Y_witness:
  "main 5 sample_world ''/proj/main.tex'' None (Some ''y'')
     = (Exited (- 1),
        [Prompt ''The output file merged_main.tex already exists. OVERWRITE THIS? ARE YOU SURE? [Y/other]'',
         Print ''Aborted.''],
        sample_world)"
proof -
  have 1: "parse_args ''/proj/main.tex'' None
      = (proj_path [''main.tex''], proj_path [], proj_path [''merged_main.tex''])"
    by (simp add: parse_args_def sample_eval)
  have 2: "file_exists sample_world (proj_path [''merged_main.tex''])"
    by (simp add: sample_eval)
  have q: "overwrite_question (proj_path [''merged_main.tex''])
      = ''The output file merged_main.tex already exists. OVERWRITE THIS? ARE YOU SURE? [Y/other]''"
    by (simp add: overwrite_question_def name_of_def proj_path_def)
  have "Some ''y'' = Some ''y'' \<and> ''y'' \<noteq> ''Y''" by simp
  then show ?thesis
    using overwrite_needs_exact_Y [OF 1 2, of 5 "Some ''y''"] unfolding q by blast
qed

section \<open>The errors of an expansion\<close>

lemma extract_of_matches_error:
  assumes "matches x line" and "extract_of x w parent root line = Inl e"
  shows "e = ReadError"
proof -
  from assms(1) obtain stem where "re_match (pat x) line = Some stem"
    by (auto simp add: matches_def)
  then show ?thesis using assms(2)
    by (cases x) (auto simp add: read_text_def Let_def split: option.splits)
qed

lemma extract_ifany_error:
  "extract_ifany w root parent line = Inl e \<Longrightarrow> e = ReadError"
  by (auto simp add: extract_ifany_def extractors_def split: if_splits sum.splits
      dest: extract_of_matches_error)

lemma expand_error_kinds:
  "expand limit w root parent lines d = Inl e \<Longrightarrow> e \<in> {ReadError, ValueError, RecursionError}"
proof (induction limit arbitrary: parent lines d e)
  case 0
  then show ?case
  proof (induction lines)
    case Nil
    then show ?case by simp
  next
    case (Cons line lines)
    show ?case
    proof (cases "expand 0 w root parent [line] d")
      case (Inl e')
      then have e': "e' = e" using Cons.prems by (simp add: expand_Cons [of _ _ _ _ line lines])
      show ?thesis
      proof (cases "extract_ifany w root parent line")
        case bad: (Inl x)
        then show ?thesis using Inl e' extract_ifany_error [OF bad]
          by (simp add: expand_single_error)
      next
        case (Inr r)
        show ?thesis
        proof (cases r)
          case None
          then show ?thesis using Inr Inl by (simp add: expand_single_nomatch)
        next
          case (Some bt)
          obtain body target where "bt = (body, target)" by (cases bt)
          then have "extract_ifany w root parent line = Inr (Some (body, target))"
            using Inr Some by simp
          from expand_single_match [OF this, of 0 d] Inl e' show ?thesis
            by (auto simp add: relative_to_def split: sum.splits if_splits)
        qed
      qed
    next
      case (Inr a)
      then have "expand 0 w root parent lines d = Inl e"
        using Cons.prems by (cases "expand 0 w root parent lines d") (simp_all add: expand_Cons [of _ _ _ _ line lines])
      then show ?thesis by (rule Cons.IH)
    qed
  qed
next
  case (Suc k)
  note outer = Suc.IH
  from Suc.prems show ?case
  proof (induction lines)
    case Nil
    then show ?case by simp
  next
    case (Cons line lines)
    show ?case
    proof (cases "expand (Suc k) w root parent [line] d")
      case (Inl e')
      then have e': "e' = e" using Cons.prems by (simp add: expand_Cons [of _ _ _ _ line lines])
      show ?thesis
      proof (cases "extract_ifany w root parent line")
        case bad: (Inl x)
        then show ?thesis using Inl e' extract_ifany_error [OF bad]
          by (simp add: expand_single_error)
      next
        case (Inr r)
        show ?thesis
        proof (cases r)
          case None
          then show ?thesis using Inr Inl by (simp add: expand_single_nomatch)
        next
          case (Some bt)
          obtain body target where "bt = (body, target)" by (cases bt)
          then have "extract_ifany w root parent line = Inr (Some (body, target))"
            using Inr Some by simp
          from expand_single_match [OF this, of "Suc k" d] Inl e' show ?thesis
            by (auto simp add: relative_to_def split: sum.splits if_splits dest: outer)
        qed
      qed
    next
      case (Inr a)
      then have "expand (Suc k) w root parent lines d = Inl e"
        using Cons.prems by (cases "expand (Suc k) w root parent lines d") (simp_all add: expand_Cons [of _ _ _ _ line lines])
      then show ?thesis by (rule Cons.IH)
    qed
  qed
qed

text \<open>
  Claim C8, as the code has it. Whatever stands between the braces of a matched line is
  taken as the stem: the text up to the last closing brace before the end of the line.
  The extractor then reads the target named by that stem, and a failed read is the only
  way the extraction fails. A line with the literal prefix and no closing brace is not
  matched at all. So the extraction of the stem from the pattern never fails, neither in
  \<open>extract_ifany\<close> nor anywhere in an expansion.
\<close>

theorem argument_taken_as_stem:
  "(matches x line \<longrightarrow>
      (\<exists>stem rest. line = backslash # pat x @ ''{'' @ stem @ ''}'' @ rest
          \<and> CHR ''}'' \<notin> set (takeWhile (\<lambda>c. c \<noteq> newline) rest)
          \<and> re_match (pat x) line = Some stem
          \<and> (case file_text w (target_of x root parent stem) of
                None \<Rightarrow> extract_of x w parent root line = Inl ReadError
              | Some text \<Rightarrow> (\<exists>body. extract_of x w parent root line
                                  = Inr (body, target_of x root parent stem)))))
   \<and> (prefix (backslash # pat x @ ''{'') line
        \<and> CHR ''}'' \<notin> set (takeWhile (\<lambda>c. c \<noteq> newline) line) \<longrightarrow>
        \<not> matches x line \<and> expand limit w root parent [line] d = Inr [line])
   \<and> extract_ifany w root parent line \<noteq> Inl AttributeError
   \<and> expand limit w root parent lines d \<noteq> Inl AttributeError"
proof -
  have unclosed: "\<not> matches x line \<and> expand limit w root parent [line] d = Inr [line]"
    if a: "prefix (backslash # pat x @ ''{'') line
        \<and> CHR ''}'' \<notin> set (takeWhile (\<lambda>c. c \<noteq> newline) line)"
  proof -
    have no: "\<not> matches x line"
    proof
      assume "matches x line"
      then obtain arg rest where line: "line = directive_literal (pat x) @ arg @ ''}'' @ rest"
        and arg: "newline \<notin> set arg"
        by (auto simp add: matches_iff)
      have "newline \<notin> set (directive_literal (pat x) @ arg)"
        using arg by (cases x) (simp_all add: directive_literal_def newline_def backslash_def)
      then have "takeWhile (\<lambda>c. c \<noteq> newline) ((directive_literal (pat x) @ arg) @ ''}'' @ rest)
          = (directive_literal (pat x) @ arg) @ takeWhile (\<lambda>c. c \<noteq> newline) (''}'' @ rest)"
        by (rule takeWhile_neq_append)
      then have "CHR ''}'' \<in> set (takeWhile (\<lambda>c. c \<noteq> newline) line)"
        by (simp add: line newline_def)
      then show False using a by simp
    qed
    have other: "\<not> matches y line" for y
    proof
      assume y: "matches y line"
      have "prefix (directive_literal (pat y)) line" using y by (rule matches_prefix)
      moreover have "prefix (directive_literal (pat x)) line"
        using a by (simp add: directive_literal_def)
      ultimately have "y = x"
        by (cases x; cases y) (auto simp add: directive_literal_def prefix_def)
      then show False using y no by simp
    qed
    have "extract_ifany w root parent line = Inr None"
      by (simp add: extract_ifany_nomatch other)
    then have "expand limit w root parent [line] d = Inr [line]"
      by (rule expand_single_nomatch)
    then show ?thesis using no by simp
  qed
  have taken: "\<exists>stem rest. line = backslash # pat x @ ''{'' @ stem @ ''}'' @ rest
          \<and> CHR ''}'' \<notin> set (takeWhile (\<lambda>c. c \<noteq> newline) rest)
          \<and> re_match (pat x) line = Some stem
          \<and> (case file_text w (target_of x root parent stem) of
                None \<Rightarrow> extract_of x w parent root line = Inl ReadError
              | Some text \<Rightarrow> (\<exists>body. extract_of x w parent root line
                                  = Inr (body, target_of x root parent stem)))"
    if m: "matches x line"
  proof -
    from m obtain stem where st: "re_match (pat x) line = Some stem"
      by (auto simp add: matches_def)
    from re_match_SomeD [OF st] obtain rest where
      line: "line = backslash # pat x @ ''{'' @ stem @ ''}'' @ rest"
      and rest: "CHR ''}'' \<notin> set (takeWhile (\<lambda>c. c \<noteq> newline) rest)"
      by (auto simp add: directive_literal_def)
    have "case file_text w (target_of x root parent stem) of
                  None \<Rightarrow> extract_of x w parent root line = Inl ReadError
                | Some text \<Rightarrow> (\<exists>body. extract_of x w parent root line
                                    = Inr (body, target_of x root parent stem))"
      using st by (cases x) (simp_all add: target_of_def read_text_def Let_def split: option.splits)
    then show ?thesis using line rest st by blast
  qed
  have e1: "extract_ifany w root parent line \<noteq> Inl AttributeError"
    using extract_ifany_error [of w root parent line AttributeError] by auto
  have e2: "expand limit w root parent lines d \<noteq> Inl AttributeError"
    using expand_error_kinds [of limit w root parent lines d AttributeError] by auto
  show ?thesis using unclosed taken e1 e2 by blast
qed

theorem argument_taken_as_stem_witness:
  "matches InputExtractor (backslash # ''input{a.tex}'')
   \<and> re_match (pat InputExtractor) (backslash # ''input{a.tex}'') = Some ''a.tex''
   \<and> extract_ifany sample_world (proj_path []) (proj_path []) (backslash # ''input{a.tex}'')
        \<noteq> Inl AttributeError
   \<and> \<not> matches InputExtractor (backslash # ''input{a.tex'')"
proof -
  have m: "matches InputExtractor (backslash # ''input{a.tex}'')"
    by (simp add: matches_def re_match_def backslash_def newline_def)
  have s: "re_match (pat InputExtractor) (backslash # ''input{a.tex}'') = Some ''a.tex''"
    by (simp add: re_match_def backslash_def newline_def)
  have p: "prefix (backslash # pat InputExtractor @ ''{'') (backslash # ''input{a.tex'')
      \<and> CHR ''}'' \<notin> set (takeWhile (\<lambda>c. c \<noteq> newline) (backslash # ''input{a.tex''))"
    by (simp add: backslash_def newline_def)
  have n: "\<not> matches InputExtractor (backslash # ''input{a.tex'')"
    using argument_taken_as_stem [where x = InputExtractor and line = "backslash # ''input{a.tex''"
      and w = sample_world and root = "proj_path []" and parent = "proj_path []" and limit = 0
      and lines = "[]" and d = 0] p by blast
  have e: "extract_ifany sample_world (proj_path []) (proj_path []) (backslash # ''input{a.tex}'')
        \<noteq> Inl AttributeError"
    using argument_taken_as_stem [where x = InputExtractor and line = "backslash # ''input{a.tex}''"
      and w = sample_world and root = "proj_path []" and parent = "proj_path []" and limit = 0
      and lines = "[]" and d = 0] by blast
  show ?thesis using m s e n by blast
qed

text \<open>
  Claim C8 as stated fails: a whole-file include whose braces hold a path with an
  extension is extracted without error. The stem is \<open>a.tex\<close>, the target
  \<open>a.tex.tex\<close> under the root, and the line expands to the marked content of that file.
\<close>

theorem argument_with_extension_counterexample:
  "prefix (backslash # ''input{'') (backslash # ''input{a.tex}'')
   \<and> extract_of InputExtractor sample_world (proj_path []) (proj_path []) (backslash # ''input{a.tex}'')
       = Inr ([''x''], proj_path [''a.tex.tex''])
   \<and> expand 1 sample_world (proj_path []) (proj_path []) [backslash # ''input{a.tex}''] 0
       = Inr [''% > a.tex.tex > : texpack'', ''x'', ''% < a.tex.tex < : texpack'']"
  by (simp add: sample_eval)

lemma expand_not_relative:
  assumes "extract_ifany w root parent line = Inr (Some (body, target))"
      and "\<not> (anchor target = anchor root \<and> prefix (tail root) (tail target))"
      and "expand limit w root parent pre d = Inr out_pre"
  shows "expand limit w root parent (pre @ line # post) d = Inl ValueError"
proof -
  have "relative_to target root = Inl ValueError"
    using assms(2) by (simp add: relative_to_def)
  then have "expand limit w root parent [line] d = Inl ValueError"
    by (simp add: expand_single_match [OF assms(1)])
  then show ?thesis using assms(3) by (simp add: expand_around_line)
qed

lemma relative_to_joinpath_relative:
  assumes "s = [] \<or> hd s \<noteq> CHR ''/''"
      and "anchor parent = anchor root" and "prefix (tail root) (tail parent)"
  shows "relative_to (joinpath parent s) root
     = Inr \<lparr>anchor = [], tail = drop (length (tail root)) (tail parent) @ tail (Path s)\<rparr>"
proof -
  from assms(3) obtain more where "tail parent = tail root @ more"
    by (auto simp add: prefix_def)
  then show ?thesis
    using assms(2) by (simp add: joinpath_relative [OF assms(1)] relative_to_def)
qed

text \<open>
  Claim C10, as the code has it. The test is on the components of the paths, not on the
  file system. When the target of an extracted directive does not start with the root and
  components of the project root, the expansion fails with the error of \<open>relative_to\<close>
  although the file was read. A stem that does not start with a slash, used in a
  directory under the root, never gives such a target, also when it starts with \<open>..\<close>:
  the components of the stem are appended to those of the directory.
\<close>

theorem target_not_under_root_fails:
  "(extract_ifany w root parent line = Inr (Some (body, target))
      \<and> \<not> (anchor target = anchor root \<and> prefix (tail root) (tail target))
      \<and> expand limit w root parent pre d = Inr out_pre \<longrightarrow>
      expand limit w root parent (pre @ line # post) d = Inl ValueError)
   \<and> ((stem = [] \<or> hd stem \<noteq> CHR ''/'')
      \<and> anchor parent = anchor root \<and> prefix (tail root) (tail parent) \<longrightarrow>
      relative_to (joinpath parent (stem @ ''.tex'')) root
        = Inr \<lparr>anchor = [],
               tail = drop (length (tail root)) (tail parent) @ tail (Path (stem @ ''.tex''))\<rparr>)"
proof (intro conjI impI)
  assume "extract_ifany w root parent line = Inr (Some (body, target))
      \<and> \<not> (anchor target = anchor root \<and> prefix (tail root) (tail target))
      \<and> expand limit w root parent pre d = Inr out_pre"
  then show "expand limit w root parent (pre @ line # post) d = Inl ValueError"
    by (intro expand_not_relative [where body = body and target = target and out_pre = out_pre]) simp_all
next
  assume a: "(stem = [] \<or> hd stem \<noteq> CHR ''/'')
      \<and> anchor parent = anchor root \<and> prefix (tail root) (tail parent)"
  then have "stem @ ''.tex'' = [] \<or> hd (stem @ ''.tex'') \<noteq> CHR ''/''"
    by (cases stem) simp_all
  then show "relative_to (joinpath parent (stem @ ''.tex'')) root
        = Inr \<lparr>anchor = [],
               tail = drop (length (tail root)) (tail parent) @ tail (Path (stem @ ''.tex''))\<rparr>"
    using a by (intro relative_to_joinpath_relative) simp_all
qed

theorem target_not_under_root_fails_witness:
  "extract_ifany sample_world (proj_path []) (proj_path []) (backslash # ''input{/etc/x}'')
     = Inr (Some ([''y''], \<lparr>anchor = ''/'', tail = [''etc'', ''x.tex'']\<rparr>))
   \<and> expand 1 sample_world (proj_path []) (proj_path [])
        ([''above''] @ (backslash # ''input{/etc/x}'') # [''below'']) 0 = Inl ValueError"
proof -
  have x: "extract_ifany sample_world (proj_path []) (proj_path []) (backslash # ''input{/etc/x}'')
     = Inr (Some ([''y''], \<lparr>anchor = ''/'', tail = [''etc'', ''x.tex'']\<rparr>))"
    by (simp add: sample_eval)
  have n: "\<not> (anchor \<lparr>anchor = ''/'', tail = [''etc'', ''x.tex'']\<rparr> = anchor (proj_path [])
      \<and> prefix (tail (proj_path [])) (tail \<lparr>anchor = ''/'', tail = [''etc'', ''x.tex'']\<rparr>))"
    by (simp add: proj_path_def)
  have a: "expand 1 sample_world (proj_path []) (proj_path []) [''above''] 0 = Inr [''above'']"
    by (intro expand_nomatch_lines) (simp add: matches_def re_match_def backslash_def)
  show ?thesis
    using target_not_under_root_fails [of sample_world "proj_path []" "proj_path []"
        "backslash # ''input{/etc/x}''" "[''y'']" "\<lparr>anchor = ''/'', tail = [''etc'', ''x.tex'']\<rparr>"
        1 "[''above'']" 0 "[''above'']" "[''below'']"] x n a
    by blast
qed

text \<open>
  Claim C10 as stated fails on its own example: a document-body include with the stem
  \<open>../x\<close> in a file of the project root directory reads \<open>/proj/../x.tex\<close> and expands
  without error, the markers naming \<open>../x.tex\<close>.
\<close>

theorem dotdot_stem_counterexample:
  "extract_ifany sample_world (proj_path []) (proj_path []) (backslash # ''subfile{../x}'')
     = Inr (Some ([''outside''], proj_path [''..'', ''x.tex'']))
   \<and> expand 1 sample_world (proj_path []) (proj_path []) [backslash # ''subfile{../x}''] 0
       = Inr [''% > ../x.tex > : texpack'', ''outside'', ''% < ../x.tex < : texpack'']"
  by (simp add: sample_eval)

end
